theory Spec2Isabelle
  imports Main "HOL-Library.Sublist" "HOL-Library.AList"
begin

text \<open>
  A model of the chat client of \<^verbatim>\<open>index.tsx\<close> and \<^verbatim>\<open>geminiService\<close>: the history
  handed to the AI client, the persistence of the messages in \<^verbatim>\<open>localStorage\<close>, and
  \<^verbatim>\<open>handleSubmit\<close> with its streaming loop. The definitions come first, each next to
  the lines of the source it stands for; the properties follow.
\<close>

section \<open>Data model\<close>

text \<open>
  JavaScript strings are modelled as \<^typ>\<open>string\<close>. An optional property
  (\<^verbatim>\<open>text?: string\<close>) is a \<^typ>\<open>string option\<close>: \<open>None\<close> stands for
  \<^verbatim>\<open>undefined\<close>, for \<^verbatim>\<open>null\<close> and for a missing key alike, since every read
  in the source (\<^verbatim>\<open>msg.text\<close> as a condition, \<^verbatim>\<open>msg.imageUrl?.startsWith\<close>)
  treats the three the same way.
\<close>

datatype Role = User | Model

text \<open>
  Modelled from the spec: the declaration of \<^verbatim>\<open>ChatMessage\<close> (\<^verbatim>\<open>./types\<close>) is
  not among the sources. The spec gives
  \<^verbatim>\<open>{ role: "user" | "model", text: string (optional), imageUrl: string (optional) }\<close>,
  and \<^verbatim>\<open>index.tsx\<close> builds its values with exactly these three properties.
\<close>

record ChatMessage =
  role :: Role
  "text" :: "string option"
  imageUrl :: "string option"

text \<open>The \<^verbatim>\<open>Part\<close> and \<^verbatim>\<open>Content\<close> values handed to the AI client.\<close>

datatype Part = TextPart string | InlineData string string

datatype Content = Content Role "Part list"

text \<open>
  JavaScript truthiness of an optional string, as in \<^verbatim>\<open>if (chunkText)\<close> and
  \<^verbatim>\<open>filter(msg => msg.text)\<close>: only the empty string and the absent value are falsy.
\<close>

definition truthy :: "string option \<Rightarrow> bool" where
  "truthy v = (case v of None \<Rightarrow> False | Some s \<Rightarrow> s \<noteq> [])"

section \<open>History reconstruction (the first effect of ChatComponent, and createChat)\<close>

text \<open>
  \<^verbatim>\<open>messages.filter(msg => msg.text).map(msg => ({ role: msg.role, parts: [{ text: msg.text! }] }))\<close>
\<close>

definition to_content :: "ChatMessage \<Rightarrow> Content" where
  "to_content msg = Content (role msg) [TextPart (case text msg of Some t \<Rightarrow> t | None \<Rightarrow> [])]"

definition history :: "ChatMessage list \<Rightarrow> Content list" where
  "history messages = map to_content (filter (\<lambda>msg. truthy (text msg)) messages)"

record GeminiChat =
  model :: string
  chat_history :: "Content list"
  systemInstruction :: string

definition modelName :: string where
  "modelName = ''gemini-2.5-flash''"

definition createChat :: "Content list \<Rightarrow> GeminiChat" where
  "createChat h =
     \<lparr>model = modelName, chat_history = h,
      systemInstruction = ''You are a helpful and friendly AI assistant. Your goal is to provide accurate and concise answers to user queries, helping them solve their problems.''\<rparr>"

text \<open>
  The rule of the spec, read on its own: go through the list from the oldest message,
  drop a message whose text is absent or empty, and turn every other message into its
  role with its text as the only part.
\<close>

fun spec_reconstruct :: "ChatMessage list \<Rightarrow> Content list" where
  "spec_reconstruct [] = []"
| "spec_reconstruct (m # ms) =
     (case text m of
        None \<Rightarrow> spec_reconstruct ms
      | Some t \<Rightarrow> (if t = [] then spec_reconstruct ms
                   else Content (role m) [TextPart t] # spec_reconstruct ms))"

fun content_role :: "Content \<Rightarrow> Role" where
  "content_role (Content r ps) = r"

fun content_texts :: "Content \<Rightarrow> string list" where
  "content_texts (Content r ps) = concat (map (\<lambda>p. case p of TextPart t \<Rightarrow> [t] | InlineData a b \<Rightarrow> []) ps)"

definition role_text :: "ChatMessage \<Rightarrow> Role \<times> string list" where
  "role_text m = (role m, case text m of Some t \<Rightarrow> [t] | None \<Rightarrow> [])"

section \<open>Errors and the try/catch of the source\<close>

text \<open>
  Everything the source can throw or reject with is a value of \<open>error\<close>; a computation
  that may throw returns \<open>error + 'a\<close>, with \<open>Inl\<close> for the exception.
\<close>

datatype error =
    Error string
  | TypeError
  | SyntaxError
  | QuotaExceededError
  | Rejected string

definition try_catch :: "(error + 'a) \<Rightarrow> (error \<Rightarrow> error + 'a) \<Rightarrow> error + 'a" where
  "try_catch body handler = (case body of Inl e \<Rightarrow> handler e | Inr v \<Rightarrow> Inr v)"

text \<open>What \<^verbatim>\<open>console.error\<close> has printed: the label (empty when none is given) and the error.\<close>

type_synonym console_log = "(string \<times> error) list"

section \<open>Local persistence (saveChatHistory, loadChatHistory)\<close>

text \<open>
  \<^verbatim>\<open>localStorage\<close> is a key/value store of strings with a bound on what it holds:
  \<^verbatim>\<open>setItem\<close> throws QuotaExceededError when the new value does not fit, and
  \<^verbatim>\<open>getItem\<close> returns null for a key that has no entry.
\<close>

record Storage =
  entries :: "(string \<times> string) list"
  quota :: nat

definition stored_size :: "(string \<times> string) list \<Rightarrow> nat" where
  "stored_size es = sum_list (map (\<lambda>(k, v). length k + length v) es)"

definition getItem :: "string \<Rightarrow> Storage \<Rightarrow> string option" where
  "getItem key st = map_of (entries st) key"

definition setItem :: "string \<Rightarrow> string \<Rightarrow> Storage \<Rightarrow> error + Storage" where
  "setItem key v st =
     (let es = AList.update key v (entries st)
      in if stored_size es \<le> quota st then Inr (st\<lparr>entries := es\<rparr>) else Inl QuotaExceededError)"

record Browser =
  localStorage :: Storage
  console :: console_log

definition history_key :: "string \<Rightarrow> string" where
  "history_key uid = ''gemini-chat-history-'' @ uid"

text \<open>\<^verbatim>\<open>msg.imageUrl?.startsWith('blob:') ? { ...msg, imageUrl: '' } : msg\<close>\<close>

definition is_blob :: "string option \<Rightarrow> bool" where
  "is_blob u = (case u of None \<Rightarrow> False | Some s \<Rightarrow> prefix ''blob:'' s)"

definition storable :: "ChatMessage \<Rightarrow> ChatMessage" where
  "storable msg = (if is_blob (imageUrl msg) then msg\<lparr>imageUrl := Some []\<rparr> else msg)"

text \<open>
  \<^verbatim>\<open>JSON.stringify\<close> and \<^verbatim>\<open>JSON.parse\<close> belong to the platform, not to the
  repository: both functions take them as parameters. \<^verbatim>\<open>JSON.stringify\<close> does not throw
  on a list of messages; \<^verbatim>\<open>JSON.parse\<close> throws on text that is not JSON. The parsed
  value has the type the source declares for it, \<^verbatim>\<open>ChatMessage[]\<close>.
\<close>

definition saveChatHistory ::
  "(ChatMessage list \<Rightarrow> string) \<Rightarrow> string \<Rightarrow> ChatMessage list \<Rightarrow> Browser \<Rightarrow> error + Browser" where
  "saveChatHistory JSON_stringify uid messages b =
     try_catch
       (let storableHistory = map storable messages
        in case setItem (history_key uid) (JSON_stringify storableHistory) (localStorage b) of
             Inl e \<Rightarrow> Inl e
           | Inr st \<Rightarrow> Inr (b\<lparr>localStorage := st\<rparr>))
       (\<lambda>e. Inr (b\<lparr>console := console b @ [(''Failed to save chat history:'', e)]\<rparr>))"

definition loadChatHistory ::
  "(string \<Rightarrow> error + ChatMessage list) \<Rightarrow> string \<Rightarrow> Browser \<Rightarrow> error + (ChatMessage list \<times> Browser)" where
  "loadChatHistory JSON_parse uid b =
     try_catch
       (case getItem (history_key uid) (localStorage b) of
          None \<Rightarrow> Inr ([], b)
        | Some storedHistory \<Rightarrow>
            (if storedHistory \<noteq> []
             then (case JSON_parse storedHistory of Inl e \<Rightarrow> Inl e | Inr v \<Rightarrow> Inr (v, b))
             else Inr ([], b)))
       (\<lambda>e. Inr ([], b\<lparr>console := console b @ [(''Failed to load chat history:'', e)]\<rparr>))"

section \<open>The chat component (ChatComponent, handleSubmit)\<close>

text \<open>
  \<^verbatim>\<open>input.trim()\<close>: the white space and line terminators of JavaScript that fit a
  \<^typ>\<open>char\<close> (tab, line feed, vertical tab, form feed, carriage return, space and the
  no-break space) are removed from both ends.
\<close>

definition whitespace :: "char \<Rightarrow> bool" where
  "whitespace c = (c \<in> set [CHR 0x09, CHR 0x0A, CHR 0x0B, CHR 0x0C, CHR 0x0D, CHR 0x20, CHR 0xA0])"

definition trim :: "string \<Rightarrow> string" where
  "trim s = rev (dropWhile whitespace (rev (dropWhile whitespace s)))"

text \<open>
  A selected file is known by its MIME type and by what reading it gives
  (\<^verbatim>\<open>fileToBase64\<close> resolves with the base64 data or rejects).
\<close>

record File =
  file_type :: string
  file_read :: "error + string"

definition fileToBase64 :: "File \<Rightarrow> error + string" where
  "fileToBase64 file = file_read file"

text \<open>
  The state of the component: its \<^verbatim>\<open>useState\<close> cells, the \<^verbatim>\<open>messages\<close> it gets from
  \<^verbatim>\<open>App\<close>, the \<^verbatim>\<open>geminiChat\<close> ref, and two traces of its effects on the world: what
  \<^verbatim>\<open>console.error\<close> printed and the requests given to \<^verbatim>\<open>sendMessageStream\<close>.
  \<^verbatim>\<open>setMessages(prev => f(prev))\<close> is applied to the list at once.
\<close>

record ChatComponent =
  messages :: "ChatMessage list"
  input :: string
  isLoading :: bool
  image :: "File option"
  imagePreview :: "string option"
  geminiChat :: "GeminiChat option"
  logged :: console_log
  sent :: "Part list list"

text \<open>The locals of one run of \<^verbatim>\<open>handleSubmit\<close> that the streaming loop updates.\<close>

record Frame =
  modelResponse :: string
  firstChunk :: bool

definition initial_frame :: Frame where
  "initial_frame = \<lparr>modelResponse = [], firstChunk = True\<rparr>"

definition model_message :: "string \<Rightarrow> ChatMessage" where
  "model_message t = \<lparr>role = Model, text = Some t, imageUrl = None\<rparr>"

definition fallback_text :: string where
  "fallback_text = ''I'm sorry, I couldn't generate a response.''"

definition apology_text :: string where
  "apology_text = ''Sorry, something went wrong. Please try again.''"

text \<open>
  \<^verbatim>\<open>const newMessages = [...prev]; newMessages[newMessages.length - 1].text = modelResponse;\<close>
  The message rewritten is whichever is last in the list at that moment. On an empty list
  the element read is \<^verbatim>\<open>undefined\<close> and the assignment throws a TypeError.
\<close>

definition replace_last_text :: "string \<Rightarrow> ChatMessage list \<Rightarrow> error + ChatMessage list" where
  "replace_last_text t prev =
     (if prev = [] then Inl TypeError
      else Inr (prev[length prev - 1 := (prev ! (length prev - 1))\<lparr>text := Some t\<rparr>]))"

text \<open>The body of the \<^verbatim>\<open>for await\<close> loop, for one chunk with its \<^verbatim>\<open>chunk.text\<close>.\<close>

definition on_chunk ::
  "string option \<Rightarrow> Frame \<times> ChatMessage list \<Rightarrow> error + (Frame \<times> ChatMessage list)" where
  "on_chunk chunkText st =
     (case st of (f, prev) \<Rightarrow>
        (case chunkText of
           None \<Rightarrow> Inr (f, prev)
         | Some t \<Rightarrow>
             (if t = [] then Inr (f, prev)
              else if firstChunk f
              then Inr (\<lparr>modelResponse = modelResponse f @ t, firstChunk = False\<rparr>,
                        prev @ [model_message (modelResponse f @ t)])
              else (case replace_last_text (modelResponse f @ t) prev of
                      Inl e \<Rightarrow> Inl e
                    | Inr new \<Rightarrow> Inr (f\<lparr>modelResponse := modelResponse f @ t\<rparr>, new)))))"

text \<open>
  The loop over the chunks that arrive, for a run that no other event interrupts. The
  TypeError of the rewriting updater is carried along as an exception; a run that starts
  with \<open>firstChunk\<close> true never meets it (\<open>for_await_first\<close> below), since the message it
  rewrites is the one it appended.
\<close>

fun for_await ::
  "string option list \<Rightarrow> Frame \<times> ChatMessage list \<Rightarrow> error option \<times> Frame \<times> ChatMessage list" where
  "for_await [] st = (None, st)"
| "for_await (c # cs) st =
     (case on_chunk c st of Inl e \<Rightarrow> (Some e, st) | Inr st' \<Rightarrow> for_await cs st')"

text \<open>\<^verbatim>\<open>if (firstChunk) setMessages(prev => [...prev, fallback])\<close>, after the loop.\<close>

definition on_complete :: "Frame \<Rightarrow> ChatMessage list \<Rightarrow> ChatMessage list" where
  "on_complete f prev = (if firstChunk f then prev @ [model_message fallback_text] else prev)"

text \<open>
  A response stream is the chunks it delivers (each with its optional text) and how it
  ends: normally, or by raising an error after the last chunk delivered.
\<close>

type_synonym stream = "string option list \<times> error option"

definition accumulate :: "stream \<Rightarrow> ChatMessage list \<Rightarrow> error option \<times> ChatMessage list" where
  "accumulate str prev =
     (case str of (chunks, ending) \<Rightarrow>
        (case for_await chunks (initial_frame, prev) of
           (Some e, f, ms) \<Rightarrow> (Some e, ms)
         | (None, f, ms) \<Rightarrow>
             (case ending of Some e \<Rightarrow> (Some e, ms) | None \<Rightarrow> (None, on_complete f ms))))"

definition rejects :: "ChatComponent \<Rightarrow> bool" where
  "rejects s = ((trim (input s) = [] \<and> image s = None) \<or> isLoading s)"

definition submit_begin :: "ChatComponent \<Rightarrow> ChatComponent" where
  "submit_begin s =
     s\<lparr>messages := messages s @ [\<lparr>role = User, text = Some (input s), imageUrl = imagePreview s\<rparr>],
       input := [], image := None, imagePreview := None, isLoading := True\<rparr>"

definition messageParts :: "string \<Rightarrow> File option \<Rightarrow> error + Part list" where
  "messageParts currentInput currentImage =
     (case (case currentImage of
              None \<Rightarrow> Inr []
            | Some file \<Rightarrow>
                (case fileToBase64 file of
                   Inl e \<Rightarrow> Inl e
                 | Inr base64Data \<Rightarrow> Inr [InlineData (file_type file) base64Data])) of
        Inl e \<Rightarrow> Inl e
      | Inr ps \<Rightarrow> Inr (ps @ (if trim currentInput \<noteq> [] then [TextPart currentInput] else [])))"

text \<open>
  The start of the \<^verbatim>\<open>try\<close> block, up to \<^verbatim>\<open>await sendMessageStream\<close>; \<open>response\<close>
  is what that call gives: a rejection, or the stream.
\<close>

definition open_request ::
  "error + 'r \<Rightarrow> string \<Rightarrow> File option \<Rightarrow> ChatComponent \<Rightarrow> (error + 'r) \<times> ChatComponent" where
  "open_request response currentInput currentImage s =
     (case geminiChat s of
        None \<Rightarrow> (Inl (Error ''Chat not initialized''), s)
      | Some chat \<Rightarrow>
          (case messageParts currentInput currentImage of
             Inl e \<Rightarrow> (Inl e, s)
           | Inr ps \<Rightarrow> (response, s\<lparr>sent := sent s @ [ps]\<rparr>)))"

definition catch_block :: "error \<Rightarrow> ChatComponent \<Rightarrow> ChatComponent" where
  "catch_block e s =
     s\<lparr>logged := logged s @ [([], e)], messages := messages s @ [model_message apology_text]\<rparr>"

definition finally_block :: "ChatComponent \<Rightarrow> ChatComponent" where
  "finally_block s = s\<lparr>isLoading := False\<rparr>"

text \<open>
  The rest of the \<^verbatim>\<open>try\<close> block once the stream is there (the loop and the fallback),
  with the \<^verbatim>\<open>catch\<close> around it.
\<close>

definition consume :: "stream \<Rightarrow> ChatComponent \<Rightarrow> ChatComponent" where
  "consume str s =
     (case accumulate str (messages s) of
        (Some e, ms) \<Rightarrow> catch_block e (s\<lparr>messages := ms\<rparr>)
      | (None, ms) \<Rightarrow> s\<lparr>messages := ms\<rparr>)"

definition handleSubmit :: "error + stream \<Rightarrow> ChatComponent \<Rightarrow> ChatComponent" where
  "handleSubmit response s =
     (if rejects s then s
      else finally_block
        (case open_request response (input s) (image s) (submit_begin s) of
           (Inl e, s') \<Rightarrow> catch_block e s'
         | (Inr str, s') \<Rightarrow> consume str s'))"

text \<open>The text of all fragments of a sequence, joined; an absent text adds nothing.\<close>

definition joined :: "string option list \<Rightarrow> string" where
  "joined cs = concat (map (\<lambda>c. case c of None \<Rightarrow> [] | Some t \<Rightarrow> t) cs)"

section \<open>The events of a mounted component\<close>

text \<open>The state a freshly mounted component starts from, with the messages of \<^verbatim>\<open>App\<close>.\<close>

definition mount :: "ChatMessage list \<Rightarrow> ChatComponent" where
  "mount ms =
     \<lparr>messages = ms, input = [], isLoading = False, image = None, imagePreview = None,
      geminiChat = None, logged = [], sent = []\<rparr>"

definition initialWelcomeMessage :: ChatMessage where
  "initialWelcomeMessage = model_message
     ''Hello there! I'm your Gemini-powered assistant. You can ask me questions, upload an image, or even use your voice. How can I help you today?''"

text \<open>
  \<^verbatim>\<open>URL.createObjectURL\<close> gives a fresh URL of the \<^verbatim>\<open>blob:\<close> scheme; the argument
  stands for the part of it the browser chooses.
\<close>

definition createObjectURL :: "string \<Rightarrow> string" where
  "createObjectURL object_id = ''blob:'' @ object_id"

definition handleFileChange :: "File option \<Rightarrow> string \<Rightarrow> ChatComponent \<Rightarrow> ChatComponent" where
  "handleFileChange file object_id s =
     (case file of
        None \<Rightarrow> s\<lparr>image := None, imagePreview := None\<rparr>
      | Some f \<Rightarrow>
          (if prefix ''image/'' (file_type f)
           then s\<lparr>image := Some f, imagePreview := Some (createObjectURL object_id)\<rparr>
           else s\<lparr>image := None, imagePreview := None\<rparr>))"

definition handleRemoveImage :: "ChatComponent \<Rightarrow> ChatComponent" where
  "handleRemoveImage s = s\<lparr>image := None, imagePreview := None\<rparr>"

definition handleNewChat :: "ChatComponent \<Rightarrow> ChatComponent" where
  "handleNewChat s = s\<lparr>messages := [initialWelcomeMessage]\<rparr>"

text \<open>The effect on \<^verbatim>\<open>[messages]\<close>: the chat is created again from the history.\<close>

definition reinitialize :: "ChatComponent \<Rightarrow> ChatComponent" where
  "reinitialize s = s\<lparr>geminiChat := Some (createChat (history (messages s)))\<rparr>"

text \<open>
  Between two awaits of \<^verbatim>\<open>handleSubmit\<close> other events run. A state of the mounted
  component is the component with the runs of \<^verbatim>\<open>handleSubmit\<close> that are suspended in
  their streaming loop, each with its locals. \<open>Submit\<close> carries what opening the request
  gives (an error, or nothing when the stream opens); \<open>Chunk\<close>, \<open>StreamEnd\<close> and
  \<open>StreamError\<close> name the run they belong to by its position. Reading the image and
  opening the request are taken as part of the submit. The events are those of one
  mounted component; signing out and in, which unmounts it and mounts another, belongs
  to \<open>app_step\<close> below. In the \<open>Chunk\<close> case the TypeError of the rewriting updater is
  sent to the \<^verbatim>\<open>catch\<close> block; in a mounted component that case never occurs
  (\<open>rewrite_has_target\<close> below). In the browser the updater runs inside React and the
  error unmounts the tree, which is what \<open>app_step\<close> does with it.
\<close>

datatype event =
    Submit "error option"
  | Chunk nat "string option"
  | StreamEnd nat
  | StreamError nat error
  | NewChat
  | SetInput string
  | FileChange "File option" string
  | RemoveImage
  | MessagesEffect

definition remove_nth :: "nat \<Rightarrow> 'a list \<Rightarrow> 'a list" where
  "remove_nth i xs = take i xs @ drop (Suc i) xs"

fun step :: "event \<Rightarrow> ChatComponent \<times> Frame list \<Rightarrow> ChatComponent \<times> Frame list" where
  "step (Submit opened) (s, fs) =
     (if rejects s then (s, fs)
      else (case open_request (case opened of Some e \<Rightarrow> Inl e | None \<Rightarrow> Inr ())
                   (input s) (image s) (submit_begin s) of
              (Inl e, s') \<Rightarrow> (finally_block (catch_block e s'), fs)
            | (Inr u, s') \<Rightarrow> (s', fs @ [initial_frame])))"
| "step (Chunk i c) (s, fs) =
     (if i < length fs
      then (case on_chunk c (fs ! i, messages s) of
              Inl e \<Rightarrow> (finally_block (catch_block e s), remove_nth i fs)
            | Inr (f, ms) \<Rightarrow> (s\<lparr>messages := ms\<rparr>, fs[i := f]))
      else (s, fs))"
| "step (StreamEnd i) (s, fs) =
     (if i < length fs
      then (finally_block (s\<lparr>messages := on_complete (fs ! i) (messages s)\<rparr>), remove_nth i fs)
      else (s, fs))"
| "step (StreamError i e) (s, fs) =
     (if i < length fs then (finally_block (catch_block e s), remove_nth i fs) else (s, fs))"
| "step NewChat (s, fs) = (handleNewChat s, fs)"
| "step (SetInput v) (s, fs) = (s\<lparr>input := v\<rparr>, fs)"
| "step (FileChange file object_id) (s, fs) = (handleFileChange file object_id s, fs)"
| "step RemoveImage (s, fs) = (handleRemoveImage s, fs)"
| "step MessagesEffect (s, fs) = (reinitialize s, fs)"

inductive reachable :: "ChatComponent \<times> Frame list \<Rightarrow> bool" where
  mounted: "reachable (mount ms, [])"
| after: "reachable st \<Longrightarrow> reachable (step ev st)"

text \<open>A response stream is in flight when some run is suspended in its loop.\<close>

definition in_flight :: "ChatComponent \<times> Frame list \<Rightarrow> bool" where
  "in_flight st = (snd st \<noteq> [])"


text \<open>The event that ends a stream: its completion, or the error it raises.\<close>

definition last_event :: "error option \<Rightarrow> event" where
  "last_event ending = (case ending of None \<Rightarrow> StreamEnd 0 | Some e \<Rightarrow> StreamError 0 e)"

section \<open>The App: signing out and in\<close>

text \<open>
  \<^verbatim>\<open>App\<close> owns \<^verbatim>\<open>messages\<close> and \<^verbatim>\<open>user\<close>; \<^verbatim>\<open>ChatComponent\<close> is mounted while a user
  is signed in, and its own cells (\<^verbatim>\<open>input\<close>, \<^verbatim>\<open>isLoading\<close>, \<^verbatim>\<open>image\<close>, the
  \<^verbatim>\<open>geminiChat\<close> ref) start afresh at every mount. A run of \<^verbatim>\<open>handleSubmit\<close> that is
  suspended in its loop when the component is unmounted goes on: its \<^verbatim>\<open>setMessages\<close> is
  the one of \<^verbatim>\<open>App\<close> and still changes the list, its \<^verbatim>\<open>setIsLoading\<close> belongs to the
  component that is gone and changes nothing.

  In a state of the App, \<open>component\<close> holds the list of \<^verbatim>\<open>App\<close>, the cells of the mounted
  component when there is one, and the two traces; \<open>runs\<close> are the suspended runs of the
  mounted component, \<open>orphans\<close> those of components unmounted since; \<open>crashed\<close> says that
  an error thrown by a state updater has unmounted the whole tree, after which no event
  changes anything. The effect of \<^verbatim>\<open>App\<close> that saves the list after every change is
  left out: the store is not part of this state, and \<open>SignIn\<close> is given the list loaded.
\<close>

record App =
  component :: ChatComponent
  signed_in :: bool
  runs :: "Frame list"
  orphans :: "Frame list"
  crashed :: bool

text \<open>
  \<open>SignOut\<close> is \<^verbatim>\<open>onAuthStateChanged(null)\<close> after the sign-out button, which stays
  active while a response streams: \<^verbatim>\<open>setUser(null); setMessages([])\<close>. \<open>SignIn\<close> is
  \<^verbatim>\<open>onAuthStateChanged(user)\<close> and carries what \<^verbatim>\<open>loadChatHistory\<close> returned for the
  account: \<^verbatim>\<open>setMessages(history.length > 0 ? history : [initialWelcomeMessage])\<close>.
\<close>

datatype app_event =
    Component event
  | SignOut
  | SignIn "ChatMessage list"
  | OrphanChunk nat "string option"
  | OrphanEnd nat
  | OrphanError nat error

definition started :: App where
  "started = \<lparr>component = mount [], signed_in = False, runs = [], orphans = [], crashed = False\<rparr>"

fun app_step :: "app_event \<Rightarrow> App \<Rightarrow> App" where
  "app_step (Component ev) a =
     (if crashed a \<or> \<not> signed_in a then a
      else (case ev of
              Chunk i c \<Rightarrow>
                (if i < length (runs a)
                 then (case on_chunk c (runs a ! i, messages (component a)) of
                         Inl e \<Rightarrow> a\<lparr>crashed := True\<rparr>
                       | Inr r \<Rightarrow>
                           (case step ev (component a, runs a) of
                              (s, fs) \<Rightarrow> a\<lparr>component := s, runs := fs\<rparr>))
                 else a)
            | _ \<Rightarrow>
                (case step ev (component a, runs a) of
                   (s, fs) \<Rightarrow> a\<lparr>component := s, runs := fs\<rparr>)))"
| "app_step SignOut a =
     (if crashed a \<or> \<not> signed_in a then a
      else a\<lparr>component := (component a)\<lparr>messages := []\<rparr>, signed_in := False,
             orphans := orphans a @ runs a, runs := []\<rparr>)"
| "app_step (SignIn loaded) a =
     (if crashed a \<or> signed_in a then a
      else a\<lparr>component :=
               (mount (if loaded \<noteq> [] then loaded else [initialWelcomeMessage]))
                 \<lparr>logged := logged (component a), sent := sent (component a)\<rparr>,
             signed_in := True\<rparr>)"
| "app_step (OrphanChunk i c) a =
     (if crashed a \<or> \<not> i < length (orphans a) then a
      else (case on_chunk c (orphans a ! i, messages (component a)) of
              Inl e \<Rightarrow> a\<lparr>crashed := True\<rparr>
            | Inr (f, ms) \<Rightarrow>
                a\<lparr>component := (component a)\<lparr>messages := ms\<rparr>, orphans := (orphans a)[i := f]\<rparr>))"
| "app_step (OrphanEnd i) a =
     (if crashed a \<or> \<not> i < length (orphans a) then a
      else a\<lparr>component :=
               (component a)\<lparr>messages := on_complete (orphans a ! i) (messages (component a))\<rparr>,
             orphans := remove_nth i (orphans a)\<rparr>)"
| "app_step (OrphanError i e) a =
     (if crashed a \<or> \<not> i < length (orphans a) then a
      else a\<lparr>component := catch_block e (component a), orphans := remove_nth i (orphans a)\<rparr>)"

inductive app_reachable :: "App \<Rightarrow> bool" where
  at_start: "app_reachable started"
| app_after: "app_reachable a \<Longrightarrow> app_reachable (app_step ev a)"

definition streams_in_flight :: "App \<Rightarrow> bool" where
  "streams_in_flight a = (runs a @ orphans a \<noteq> [])"

text \<open>
  A run of the App: the user signs in, types \<open>Hi\<close> and submits; while that request is
  open the user signs out and in again, and types \<open>again\<close>.
\<close>

definition remounted :: App where
  "remounted =
     app_step (Component (SetInput ''again''))
       (app_step (Component MessagesEffect)
          (app_step (SignIn [])
             (app_step SignOut
                (app_step (Component (Submit None))
                   (app_step (Component (SetInput ''Hi''))
                      (app_step (Component MessagesEffect)
                         (app_step (SignIn []) started)))))))"

section \<open>A stand-in for the JSON functions\<close>

text \<open>
  To run the persistence functions on concrete lists, a writer and a reader of message
  lists take the place of \<^verbatim>\<open>JSON.stringify\<close> and \<^verbatim>\<open>JSON.parse\<close>. They are not the
  platform's functions. The writer leaves out a property that is absent or null, where
  \<^verbatim>\<open>JSON.stringify\<close> writes \<^verbatim>\<open>null\<close> for a null one, and it escapes only the
  double quote and the backslash. The reader accepts the text the writer writes and
  nothing else: no white space, no other order of the keys, no other escape. No property
  below is stated of JSON itself; where a theorem is about the platform's functions it
  takes them as parameters.
\<close>

definition escaped :: "char \<Rightarrow> string" where
  "escaped c = (if c = CHR 0x22 \<or> c = CHR 0x5C then [CHR 0x5C, c] else [c])"

definition quote :: "string \<Rightarrow> string" where
  "quote s = CHR 0x22 # concat (map escaped s) @ [CHR 0x22]"

definition encode_message :: "ChatMessage \<Rightarrow> string" where
  "encode_message m =
     ''{'' @ quote ''role'' @ '':'' @ quote (case role m of User \<Rightarrow> ''user'' | Model \<Rightarrow> ''model'')
     @ (case text m of None \<Rightarrow> [] | Some t \<Rightarrow> '','' @ quote ''text'' @ '':'' @ quote t)
     @ (case imageUrl m of None \<Rightarrow> [] | Some u \<Rightarrow> '','' @ quote ''imageUrl'' @ '':'' @ quote u)
     @ ''}''"

fun encode_items :: "ChatMessage list \<Rightarrow> string" where
  "encode_items [] = []"
| "encode_items [m] = encode_message m"
| "encode_items (m # ms) = encode_message m @ '','' @ encode_items ms"

definition encode_messages :: "ChatMessage list \<Rightarrow> string" where
  "encode_messages ms = ''['' @ encode_items ms @ '']''"

definition expect :: "string \<Rightarrow> string \<Rightarrow> string option" where
  "expect p s = (if prefix p s then Some (drop (length p) s) else None)"

fun unquote :: "string \<Rightarrow> (string \<times> string) option" where
  "unquote [] = None"
| "unquote (c # cs) =
     (if c = CHR 0x22 then Some ([], cs)
      else if c = CHR 0x5C
      then (case cs of
              [] \<Rightarrow> None
            | d # ds \<Rightarrow> (case unquote ds of None \<Rightarrow> None | Some (t, r) \<Rightarrow> Some (d # t, r)))
      else (case unquote cs of None \<Rightarrow> None | Some (t, r) \<Rightarrow> Some (c # t, r)))"

definition read_string :: "string \<Rightarrow> (string \<times> string) option" where
  "read_string s = (case s of [] \<Rightarrow> None | c # cs \<Rightarrow> if c = CHR 0x22 then unquote cs else None)"

definition read_field :: "string \<Rightarrow> string \<Rightarrow> (string option \<times> string) option" where
  "read_field name s =
     (case expect ('','' @ quote name @ '':'') s of
        None \<Rightarrow> Some (None, s)
      | Some r \<Rightarrow> (case read_string r of None \<Rightarrow> None | Some (v, r') \<Rightarrow> Some (Some v, r')))"

definition read_message :: "string \<Rightarrow> (ChatMessage \<times> string) option" where
  "read_message s =
     (case expect (''{'' @ quote ''role'' @ '':'') s of
        None \<Rightarrow> None
      | Some s1 \<Rightarrow>
          (case read_string s1 of
             None \<Rightarrow> None
           | Some (r, s2) \<Rightarrow>
               (if r \<noteq> ''user'' \<and> r \<noteq> ''model'' then None
                else (case read_field ''text'' s2 of
                        None \<Rightarrow> None
                      | Some (t, s3) \<Rightarrow>
                          (case read_field ''imageUrl'' s3 of
                             None \<Rightarrow> None
                           | Some (u, s4) \<Rightarrow>
                               (case expect ''}'' s4 of
                                  None \<Rightarrow> None
                                | Some s5 \<Rightarrow>
                                    Some (\<lparr>role = (if r = ''user'' then User else Model),
                                           text = t, imageUrl = u\<rparr>, s5)))))))"

fun read_items :: "nat \<Rightarrow> string \<Rightarrow> ChatMessage list option" where
  "read_items 0 s = None"
| "read_items (Suc n) s =
     (case read_message s of
        None \<Rightarrow> None
      | Some (m, r) \<Rightarrow>
          (if r = '']'' then Some [m]
           else (case expect '','' r of
                   None \<Rightarrow> None
                 | Some r' \<Rightarrow> (case read_items n r' of None \<Rightarrow> None | Some ms \<Rightarrow> Some (m # ms)))))"

definition decode_messages :: "string \<Rightarrow> error + ChatMessage list" where
  "decode_messages s =
     (if s = ''[]'' then Inr []
      else (case expect ''['' s of
              None \<Rightarrow> Inl SyntaxError
            | Some r \<Rightarrow> (case read_items (length r) r of None \<Rightarrow> Inl SyntaxError | Some ms \<Rightarrow> Inr ms)))"

section \<open>Concrete states\<close>

text \<open>A component whose chat is initialised and where the user has typed \<open>Hi\<close>.\<close>

definition asking :: ChatComponent where
  "asking = (reinitialize (mount [initialWelcomeMessage]))\<lparr>input := ''Hi''\<rparr>"

section \<open>Saving and loading again\<close>

definition save_then_load ::
  "(ChatMessage list \<Rightarrow> string) \<Rightarrow> (string \<Rightarrow> error + ChatMessage list) \<Rightarrow> string
     \<Rightarrow> ChatMessage list \<Rightarrow> Browser \<Rightarrow> error + (ChatMessage list \<times> Browser)" where
  "save_then_load JSON_stringify JSON_parse uid ms b =
     (case saveChatHistory JSON_stringify uid ms b of
        Inl e \<Rightarrow> Inl e
      | Inr b' \<Rightarrow> loadChatHistory JSON_parse uid b')"

text \<open>A browser with an empty store of the given capacity, and two messages.\<close>

definition fresh_browser :: "nat \<Rightarrow> Browser" where
  "fresh_browser n = \<lparr>localStorage = \<lparr>entries = [], quota = n\<rparr>, console = []\<rparr>"

definition photo_message :: ChatMessage where
  "photo_message = \<lparr>role = User, text = Some ''look'', imageUrl = Some ''blob:abc''\<rparr>"



text \<open>A browser whose store is nearly full and holds text that is not JSON for user \<open>u1\<close>.\<close>

definition spoiled_browser :: Browser where
  "spoiled_browser =
     \<lparr>localStorage = \<lparr>entries = [(history_key ''u1'', ''{oops'')], quota = 30\<rparr>, console = []\<rparr>"

text \<open>A browser that holds an older list for user \<open>u1\<close> and has little room left.\<close>

definition older_browser :: Browser where
  "older_browser =
     \<lparr>localStorage = \<lparr>entries = [(history_key ''u1'', encode_messages [model_message ''old''])],
                       quota = 60\<rparr>,
      console = []\<rparr>"

section \<open>Properties\<close>

lemma history_spec: "history ms = spec_reconstruct ms"
  by (induction ms) (auto simp: history_def to_content_def truthy_def split: option.splits)

lemma history_role_text:
  "map (\<lambda>c. (content_role c, content_texts c)) (history ms)
     = map role_text (filter (\<lambda>m. truthy (text m)) ms)"
  by (induction ms) (auto simp: history_def to_content_def role_text_def truthy_def split: option.splits)

text \<open>
  C1. For every message list, the empty one included, the history handed to
  \<open>createChat\<close> is the list the spec's rule describes: the messages whose text is present
  and non-empty, each as its role with its text as the single part, in their order. The
  roles and texts of the output are a subsequence of those of the input, the output has
  as many entries as there are messages with non-empty text, and never more than the
  input.
\<close>

theorem history_reconstruction:
  "chat_history (createChat (history ms)) = spec_reconstruct ms
   \<and> history [] = []
   \<and> subseq (map (\<lambda>c. (content_role c, content_texts c)) (history ms)) (map role_text ms)
   \<and> length (history ms) = length (filter (\<lambda>m. truthy (text m)) ms)
   \<and> length (history ms) \<le> length ms"
proof -
  have "subseq (map role_text (filter (\<lambda>m. truthy (text m)) ms)) (map role_text ms)"
    by (simp add: subseq_map)
  then show ?thesis
    by (simp add: history_spec [symmetric] history_role_text createChat_def)
       (simp add: history_def)
qed

subsection \<open>The streaming loop\<close>

lemma joined_simps:
  "joined [] = []"
  "joined (None # cs) = joined cs"
  "joined (Some t # cs) = t @ joined cs"
  by (simp_all add: joined_def)

lemma any_truthy_joined: "(\<exists>c\<in>set cs. truthy c) \<longleftrightarrow> joined cs \<noteq> []"
  by (induction cs) (auto simp: joined_def truthy_def split: option.splits)

lemma for_await_append:
  "for_await (xs @ ys) st =
     (case for_await xs st of (None, st') \<Rightarrow> for_await ys st' | (Some e, st') \<Rightarrow> (Some e, st'))"
  by (induction xs arbitrary: st) (auto split: sum.splits)

text \<open>
  Once the message of this run is the last of the list, every further chunk rewrites its
  text with all the text received so far.
\<close>

lemma for_await_later:
  "\<not> firstChunk f \<Longrightarrow> text m = Some (modelResponse f) \<Longrightarrow>
   for_await cs (f, p @ [m]) =
     (None, f\<lparr>modelResponse := modelResponse f @ joined cs\<rparr>,
      p @ [m\<lparr>text := Some (modelResponse f @ joined cs)\<rparr>])"
proof (induction cs arbitrary: f m)
  case Nil
  then show ?case by (simp add: joined_simps)
next
  case (Cons c cs)
  show ?case
  proof (cases "truthy c")
    case False
    then have "on_chunk c (f, p @ [m]) = Inr (f, p @ [m])" "joined (c # cs) = joined cs"
      by (auto simp: on_chunk_def truthy_def joined_def split: option.splits)
    with Cons show ?thesis by simp
  next
    case True
    then obtain t where t: "c = Some t" "t \<noteq> []"
      by (auto simp: truthy_def split: option.splits)
    let ?f = "f\<lparr>modelResponse := modelResponse f @ t\<rparr>"
    let ?m = "m\<lparr>text := Some (modelResponse f @ t)\<rparr>"
    have step: "on_chunk c (f, p @ [m]) = Inr (?f, p @ [?m])"
      using t Cons.prems by (simp add: on_chunk_def replace_last_text_def)
    have "for_await cs (?f, p @ [?m]) =
      (None, ?f\<lparr>modelResponse := modelResponse ?f @ joined cs\<rparr>,
       p @ [?m\<lparr>text := Some (modelResponse ?f @ joined cs)\<rparr>])"
      by (rule Cons.IH) (use Cons.prems in simp_all)
    then show ?thesis using step t by (simp add: joined_simps)
  qed
qed

lemma for_await_first:
  "firstChunk f \<Longrightarrow>
   for_await cs (f, prev) =
     (if joined cs = [] then (None, f, prev)
      else (None, \<lparr>modelResponse = modelResponse f @ joined cs, firstChunk = False\<rparr>,
            prev @ [model_message (modelResponse f @ joined cs)]))"
proof (induction cs)
  case Nil
  then show ?case by (simp add: joined_simps)
next
  case (Cons c cs)
  show ?case
  proof (cases "truthy c")
    case False
    then have "on_chunk c (f, prev) = Inr (f, prev)" "joined (c # cs) = joined cs"
      by (auto simp: on_chunk_def truthy_def joined_def split: option.splits)
    with Cons show ?thesis by simp
  next
    case True
    then obtain t where t: "c = Some t" "t \<noteq> []"
      by (auto simp: truthy_def split: option.splits)
    let ?f = "\<lparr>modelResponse = modelResponse f @ t, firstChunk = False\<rparr>"
    let ?m = "model_message (modelResponse f @ t)"
    have step: "on_chunk c (f, prev) = Inr (?f, prev @ [?m])"
      using t Cons.prems by (simp add: on_chunk_def)
    have "for_await cs (?f, prev @ [?m]) =
      (None, ?f\<lparr>modelResponse := modelResponse ?f @ joined cs\<rparr>,
       prev @ [?m\<lparr>text := Some (modelResponse ?f @ joined cs)\<rparr>])"
      by (rule for_await_later) (simp_all add: model_message_def)
    then show ?thesis using step t by (simp add: joined_simps model_message_def)
  qed
qed

lemma accumulate_eq:
  "accumulate (cs, ending) prev =
     (case ending of
        None \<Rightarrow> (None, if joined cs = [] then prev @ [model_message fallback_text]
                       else prev @ [model_message (joined cs)])
      | Some e \<Rightarrow> (Some e, if joined cs = [] then prev else prev @ [model_message (joined cs)]))"
  by (simp add: accumulate_def for_await_first initial_frame_def on_complete_def split: option.splits)

lemma consume_messages:
  "messages (consume (cs, ending) s) =
     messages s @ (if joined cs = [] then [] else [model_message (joined cs)])
       @ (case ending of
            None \<Rightarrow> (if joined cs = [] then [model_message fallback_text] else [])
          | Some e \<Rightarrow> [model_message apology_text])"
  by (simp add: consume_def accumulate_eq catch_block_def split: option.splits)

lemma consume_logged:
  "logged (consume (cs, ending) s) = logged s @ (case ending of None \<Rightarrow> [] | Some e \<Rightarrow> [([], e)])"
  by (simp add: consume_def accumulate_eq catch_block_def split: option.splits)

lemma consume_frame:
  "sent (consume str s) = sent s" "isLoading (consume str s) = isLoading s"
  "input (consume str s) = input s" "image (consume str s) = image s"
  "imagePreview (consume str s) = imagePreview s" "geminiChat (consume str s) = geminiChat s"
  by (cases str; simp add: consume_def accumulate_eq catch_block_def split: option.splits)+

text \<open>
  C2. Chunks without text change nothing. The first chunk with a non-empty text appends
  one message of role \<open>Model\<close> with that text. After any number \<open>n\<close> of chunks, at least
  one of them non-empty, the list is the one before the run with one message more, whose
  text is the concatenation of the texts of these \<open>n\<close> chunks; the state after \<open>n\<close> chunks
  is the state the loop over the whole sequence goes through. For \<open>Hel\<close>, \<open>lo\<close>, \<open> there\<close>
  the texts are \<open>Hel\<close>, then \<open>Hello\<close>, and \<open>Hello there\<close> at the end.
\<close>

theorem stream_accumulation:
  "(list_all (\<lambda>c. \<not> truthy c) pre \<and> t \<noteq> [] \<longrightarrow>
      for_await (pre @ [Some t]) (initial_frame, prev)
        = (None, \<lparr>modelResponse = t, firstChunk = False\<rparr>, prev @ [model_message t]))
   \<and> ((\<exists>c\<in>set (take n cs). truthy c) \<longrightarrow>
      for_await (take n cs) (initial_frame, prev)
        = (None, \<lparr>modelResponse = joined (take n cs), firstChunk = False\<rparr>,
           prev @ [model_message (joined (take n cs))]))
   \<and> for_await cs (initial_frame, prev)
        = (case for_await (take n cs) (initial_frame, prev) of
             (None, st) \<Rightarrow> for_await (drop n cs) st
           | (Some e, st) \<Rightarrow> (Some e, st))
   \<and> ((\<exists>c\<in>set cs. truthy c) \<longrightarrow>
        messages (consume (cs, None) s) = messages s @ [model_message (joined cs)])
   \<and> role (model_message (joined cs)) = Model
   \<and> text (model_message (joined cs)) = Some (joined cs)
   \<and> snd (snd (for_await [Some ''Hel''] (initial_frame, prev))) = prev @ [model_message ''Hel'']
   \<and> snd (snd (for_await [Some ''Hel'', Some ''lo''] (initial_frame, prev)))
        = prev @ [model_message ''Hello'']
   \<and> messages (consume ([Some ''Hel'', Some ''lo'', Some '' there''], None) s)
        = messages s @ [model_message ''Hello there'']"
proof -
  have pre: "joined (pre @ [Some t]) = t" if "list_all (\<lambda>c. \<not> truthy c) pre"
    using that by (induction pre) (auto simp: joined_def truthy_def split: option.splits)
  have split: "for_await cs (initial_frame, prev)
        = (case for_await (take n cs) (initial_frame, prev) of
             (None, st) \<Rightarrow> for_await (drop n cs) st
           | (Some e, st) \<Rightarrow> (Some e, st))"
    using for_await_append [of "take n cs" "drop n cs"] by simp
  show ?thesis
    apply (intro conjI impI)
    subgoal by (simp add: for_await_first initial_frame_def pre)
    subgoal by (simp add: for_await_first initial_frame_def any_truthy_joined)
    subgoal by (rule split)
    subgoal by (simp add: consume_messages any_truthy_joined)
    subgoal by (simp add: model_message_def)
    subgoal by (simp add: model_message_def)
    subgoal by (simp add: for_await_first initial_frame_def joined_def del: for_await.simps)
    subgoal by (simp add: for_await_first initial_frame_def joined_def del: for_await.simps)
    subgoal by (simp add: consume_messages joined_def)
    done
qed

theorem stream_accumulation_witness:
  "list_all (\<lambda>c. \<not> truthy c) [None, Some []] \<and> ''Hi'' \<noteq> []
   \<and> for_await ([None, Some []] @ [Some ''Hi'']) (initial_frame, [model_message ''a''])
        = (None, \<lparr>modelResponse = ''Hi'', firstChunk = False\<rparr>, [model_message ''a'', model_message ''Hi''])
   \<and> (\<exists>c\<in>set (take 2 [Some ''Hel'', Some ''lo'', Some '' there'']). truthy c)
   \<and> for_await (take 2 [Some ''Hel'', Some ''lo'', Some '' there'']) (initial_frame, [model_message ''a''])
        = (None, \<lparr>modelResponse = ''Hello'', firstChunk = False\<rparr>, [model_message ''a'', model_message ''Hello''])
   \<and> messages (consume ([Some ''Hel'', Some ''lo'', Some '' there''], None) (mount [model_message ''a'']))
        = [model_message ''a'', model_message ''Hello there'']"
  using stream_accumulation [of "[None, Some []]" "''Hi''" "[model_message ''a'']" 2
      "[Some ''Hel'', Some ''lo'', Some '' there'']" "mount [model_message ''a'']"]
  by (simp add: truthy_def joined_def mount_def)

text \<open>
  C4. When the sequence completes and no chunk of it had a non-empty text (the empty
  sequence included), the run appends exactly one message: role \<open>Model\<close>, with the fixed
  fallback text.
\<close>

theorem fallback_message:
  "list_all (\<lambda>c. \<not> truthy c) cs \<longrightarrow>
     messages (consume (cs, None) s) = messages s @ [model_message fallback_text]
     \<and> role (model_message fallback_text) = Model
     \<and> text (model_message fallback_text) = Some ''I'm sorry, I couldn't generate a response.''"
proof -
  have "joined cs = []" if "list_all (\<lambda>c. \<not> truthy c) cs"
    using that any_truthy_joined [of cs] by (auto simp: list_all_iff)
  then show ?thesis
    by (simp add: consume_messages model_message_def fallback_text_def)
qed

theorem fallback_message_witness:
  "list_all (\<lambda>c. \<not> truthy c) [] \<and> list_all (\<lambda>c. \<not> truthy c) [None, Some []]
   \<and> messages (consume ([], None) (mount [])) = [model_message fallback_text]
   \<and> messages (consume ([None, Some []], None) (mount [model_message ''a'']))
        = [model_message ''a'', model_message fallback_text]"
  using fallback_message [of "[]" "mount []"]
    fallback_message [of "[None, Some []]" "mount [model_message ''a'']"]
  by (simp add: truthy_def mount_def)

subsection \<open>handleSubmit as a run of events\<close>

text \<open>
  What \<open>handleSubmit\<close> does from its first line to its last is what the events do one
  after the other: the submit, every chunk of the stream, and the end of the stream.
\<close>

lemma chunks_without_run: "fold (\<lambda>c. step (Chunk 0 c)) cs (s, []) = (s, [])"
  by (induction cs) simp_all

lemma chunks_as_loop:
  "fold (\<lambda>c. step (Chunk 0 c)) cs (s, [f]) =
     (case for_await cs (f, messages s) of
        (None, f', ms) \<Rightarrow> (s\<lparr>messages := ms\<rparr>, [f'])
      | (Some e, f', ms) \<Rightarrow> (finally_block (catch_block e (s\<lparr>messages := ms\<rparr>)), []))"
proof (induction cs arbitrary: s f)
  case Nil
  show ?case by simp
next
  case (Cons c cs)
  show ?case
  proof (cases "on_chunk c (f, messages s)")
    case (Inl e)
    then show ?thesis by (simp add: remove_nth_def chunks_without_run)
  next
    case (Inr r)
    obtain f' ms where r: "r = (f', ms)" by (cases r)
    with Inr show ?thesis by (simp add: Cons.IH split: prod.splits option.splits)
  qed
qed

lemma handleSubmit_as_events:
  "handleSubmit (Inr (cs, ending)) s
     = fst (step (last_event ending) (fold (\<lambda>c. step (Chunk 0 c)) cs (step (Submit None) (s, []))))"
  "handleSubmit (Inl e) s = fst (step (Submit (Some e)) (s, []))"
proof -
  show "handleSubmit (Inl e) s = fst (step (Submit (Some e)) (s, []))"
    by (simp add: handleSubmit_def open_request_def split: option.splits sum.splits)
  show "handleSubmit (Inr (cs, ending)) s
     = fst (step (last_event ending) (fold (\<lambda>c. step (Chunk 0 c)) cs (step (Submit None) (s, []))))"
  proof (cases "rejects s")
    case True
    then show ?thesis
      by (simp add: handleSubmit_def chunks_without_run last_event_def split: option.splits)
  next
    case False
    show ?thesis
    proof (cases "geminiChat s")
      case None
      with False show ?thesis
        by (simp add: handleSubmit_def open_request_def submit_begin_def chunks_without_run
            last_event_def split: option.splits)
    next
      case (Some chat)
      show ?thesis
      proof (cases "messageParts (input s) (image s)")
        case (Inl e')
        with False Some show ?thesis
          by (simp add: handleSubmit_def open_request_def submit_begin_def chunks_without_run
              last_event_def split: option.splits)
      next
        case (Inr ps)
        let ?s = "(submit_begin s)\<lparr>sent := sent s @ [ps]\<rparr>"
        obtain r f ms where l: "for_await cs (initial_frame, messages ?s) = (r, f, ms)"
          by (cases "for_await cs (initial_frame, messages ?s)")
        have o: "open_request (Inr u) (input s) (image s) (submit_begin s) = (Inr u, ?s)" for u :: 'a
          using Some Inr by (simp add: open_request_def submit_begin_def)
        have b: "step (Submit None) (s, []) = (?s, [initial_frame])"
          using False o [of "()"] by simp
        have h: "handleSubmit (Inr (cs, ending)) s = finally_block (consume (cs, ending) ?s)"
          using False o [of "(cs, ending)"] by (simp add: handleSubmit_def)
        show ?thesis
          unfolding h b chunks_as_loop
          using l
          by (cases r; cases ending)
             (simp_all add: consume_def accumulate_def last_event_def remove_nth_def
               finally_block_def catch_block_def)
      qed
    qed
  qed
qed




subsection \<open>One run of the accumulator\<close>



lemma handleSubmit_accepted:
  "\<not> rejects s \<Longrightarrow> geminiChat s = Some chat \<Longrightarrow> messageParts (input s) (image s) = Inr ps \<Longrightarrow>
   handleSubmit (Inr str) s = finally_block (consume str ((submit_begin s)\<lparr>sent := sent s @ [ps]\<rparr>))"
  by (simp add: handleSubmit_def open_request_def submit_begin_def)

lemma handleSubmit_refused:
  "\<not> rejects s \<Longrightarrow> geminiChat s = Some chat \<Longrightarrow> messageParts (input s) (image s) = Inr ps \<Longrightarrow>
   handleSubmit (Inl e) s = finally_block (catch_block e ((submit_begin s)\<lparr>sent := sent s @ [ps]\<rparr>))"
  by (simp add: handleSubmit_def open_request_def submit_begin_def)

text \<open>
  C5. When the stream raises after some chunks, the list is the one the loop had built
  from these chunks, with one apology message after it: alone when no fragment had text,
  after the partial response otherwise. The error is printed once. The submit that ran
  into the error gave the client exactly one request, ends normally with
  \<open>isLoading\<close> false, and the same holds when opening the request is what fails.
\<close>

theorem stream_failure:
  "messages (consume (cs, Some e) s)
     = snd (snd (for_await cs (initial_frame, messages s))) @ [model_message apology_text]
   \<and> messages (consume (cs, Some e) s)
     = messages s @ (if joined cs = [] then [] else [model_message (joined cs)])
         @ [model_message apology_text]
   \<and> logged (consume (cs, Some e) s) = logged s @ [([], e)]
   \<and> sent (consume (cs, Some e) s) = sent s
   \<and> (\<not> rejects s \<and> geminiChat s = Some chat \<and> messageParts (input s) (image s) = Inr ps \<longrightarrow>
        messages (handleSubmit (Inr (cs, Some e)) s)
          = messages s @ [\<lparr>role = User, text = Some (input s), imageUrl = imagePreview s\<rparr>]
              @ (if joined cs = [] then [] else [model_message (joined cs)])
              @ [model_message apology_text]
        \<and> logged (handleSubmit (Inr (cs, Some e)) s) = logged s @ [([], e)]
        \<and> sent (handleSubmit (Inr (cs, Some e)) s) = sent s @ [ps]
        \<and> \<not> isLoading (handleSubmit (Inr (cs, Some e)) s)
        \<and> messages (handleSubmit (Inl e) s)
          = messages s @ [\<lparr>role = User, text = Some (input s), imageUrl = imagePreview s\<rparr>,
                          model_message apology_text]
        \<and> logged (handleSubmit (Inl e) s) = logged s @ [([], e)]
        \<and> sent (handleSubmit (Inl e) s) = sent s @ [ps]
        \<and> \<not> isLoading (handleSubmit (Inl e) s))"
proof -
  have a: "snd (snd (for_await cs (initial_frame, messages s)))
      = messages s @ (if joined cs = [] then [] else [model_message (joined cs)])"
    by (simp add: for_await_first initial_frame_def)
  show ?thesis
    apply (intro conjI impI)
    subgoal by (simp add: a consume_messages)
    subgoal by (simp add: consume_messages)
    subgoal by (simp add: consume_logged)
    subgoal by (simp add: consume_frame)
    subgoal by (simp add: handleSubmit_accepted finally_block_def consume_messages submit_begin_def)
    subgoal by (simp add: handleSubmit_accepted finally_block_def consume_logged submit_begin_def)
    subgoal by (simp add: handleSubmit_accepted finally_block_def consume_frame submit_begin_def)
    subgoal by (simp add: handleSubmit_accepted finally_block_def)
    subgoal by (simp add: handleSubmit_refused finally_block_def catch_block_def submit_begin_def)
    subgoal by (simp add: handleSubmit_refused finally_block_def catch_block_def submit_begin_def)
    subgoal by (simp add: handleSubmit_refused finally_block_def catch_block_def submit_begin_def)
    subgoal by (simp add: handleSubmit_refused finally_block_def)
    done
qed

theorem stream_failure_witness:
  "\<not> rejects asking \<and> geminiChat asking = Some (createChat (history [initialWelcomeMessage]))
   \<and> messageParts (input asking) (image asking) = Inr [TextPart ''Hi'']
   \<and> messages (handleSubmit (Inr ([Some ''Hel'', Some ''lo''], Some (Rejected ''network''))) asking)
       = [initialWelcomeMessage, \<lparr>role = User, text = Some ''Hi'', imageUrl = None\<rparr>,
          model_message ''Hello'', model_message apology_text]
   \<and> logged (handleSubmit (Inr ([Some ''Hel'', Some ''lo''], Some (Rejected ''network''))) asking)
       = [([], Rejected ''network'')]
   \<and> sent (handleSubmit (Inr ([Some ''Hel'', Some ''lo''], Some (Rejected ''network''))) asking)
       = [[TextPart ''Hi'']]
   \<and> \<not> isLoading (handleSubmit (Inr ([Some ''Hel'', Some ''lo''], Some (Rejected ''network''))) asking)"
  using stream_failure [of "[Some ''Hel'', Some ''lo'']" "Rejected ''network''" asking
      "createChat (history [initialWelcomeMessage])" "[TextPart ''Hi'']"]
  by (simp add: asking_def reinitialize_def mount_def rejects_def trim_def whitespace_def
      messageParts_def joined_def)

subsection \<open>The guard of handleSubmit\<close>

lemma trim_empty_iff: "trim s = [] \<longleftrightarrow> list_all whitespace s"
proof
  assume "trim s = []"
  then have all: "\<forall>x\<in>set (dropWhile whitespace s). whitespace x"
    by (simp add: trim_def dropWhile_eq_Nil_conv)
  have "dropWhile whitespace s = []"
  proof (rule ccontr)
    assume ne: "dropWhile whitespace s \<noteq> []"
    then have "\<not> whitespace (hd (dropWhile whitespace s))" by (rule hd_dropWhile)
    moreover have "hd (dropWhile whitespace s) \<in> set (dropWhile whitespace s)"
      using ne by simp
    ultimately show False using all by blast
  qed
  then show "list_all whitespace s"
    using dropWhile_eq_Nil_conv [of whitespace s] by (simp add: list_all_iff)
next
  assume "list_all whitespace s"
  then have "dropWhile whitespace s = []"
    using dropWhile_eq_Nil_conv [of whitespace s] by (simp add: list_all_iff)
  then show "trim s = []" by (simp add: trim_def del: dropWhile_eq_Nil_conv)
qed

text \<open>
  C10. A submit with an input that is empty or all white space and with no image selected
  changes nothing: the state after it is the state before it, so no message is appended
  and no request is given to the client.
\<close>

theorem empty_submit_noop:
  "list_all whitespace (input s) \<and> image s = None \<longrightarrow>
     handleSubmit response s = s \<and> step (Submit opened) (s, fs) = (s, fs)
     \<and> messages (handleSubmit response s) = messages s
     \<and> sent (handleSubmit response s) = sent s"
  by (simp add: handleSubmit_def rejects_def trim_empty_iff)

theorem empty_submit_noop_witness:
  "list_all whitespace (input ((mount [initialWelcomeMessage])\<lparr>input := [CHR 0x20, CHR 0x0A, CHR 0x09]\<rparr>))
   \<and> image ((mount [initialWelcomeMessage])\<lparr>input := [CHR 0x20, CHR 0x0A, CHR 0x09]\<rparr>) = None
   \<and> list_all whitespace (input (mount [initialWelcomeMessage]))
   \<and> handleSubmit (Inr ([Some ''Hi''], None)) ((mount [initialWelcomeMessage])\<lparr>input := [CHR 0x20, CHR 0x0A, CHR 0x09]\<rparr>)
       = (mount [initialWelcomeMessage])\<lparr>input := [CHR 0x20, CHR 0x0A, CHR 0x09]\<rparr>
   \<and> handleSubmit (Inr ([Some ''Hi''], None)) (mount [initialWelcomeMessage]) = mount [initialWelcomeMessage]"
  using empty_submit_noop [of "(mount [initialWelcomeMessage])\<lparr>input := [CHR 0x20, CHR 0x0A, CHR 0x09]\<rparr>"
      "Inr ([Some ''Hi''], None)" None "[]"]
    empty_submit_noop [of "mount [initialWelcomeMessage]" "Inr ([Some ''Hi''], None)" None "[]"]
  by (simp add: mount_def whitespace_def)

lemma remove_nth_single: "i < length fs \<Longrightarrow> length fs = 1 \<Longrightarrow> remove_nth i fs = []"
  by (cases fs) (auto simp: remove_nth_def)

lemma step_guarded:
  assumes "snd st = [] \<or> (length (snd st) = 1 \<and> isLoading (fst st))"
  shows "snd (step ev st) = [] \<or> (length (snd (step ev st)) = 1 \<and> isLoading (fst (step ev st)))"
proof (cases st)
  case (Pair s fs)
  show ?thesis
  proof (cases ev)
    case (Submit opened)
    show ?thesis
    proof (cases "rejects s")
      case True
      with assms Pair Submit show ?thesis by simp
    next
      case False
      then have "\<not> isLoading s" by (simp add: rejects_def)
      with assms Pair have "fs = []" by auto
      with Pair Submit False show ?thesis
        by (auto simp: open_request_def submit_begin_def finally_block_def catch_block_def
            split: option.splits sum.splits)
    qed
  next
    case (Chunk i c)
    with assms Pair show ?thesis
      by (auto simp: remove_nth_single split: sum.splits)
  next
    case (StreamEnd i)
    with assms Pair show ?thesis by (auto simp: remove_nth_single)
  next
    case (StreamError i e)
    with assms Pair show ?thesis by (auto simp: remove_nth_single)
  next
    case NewChat
    with assms Pair show ?thesis by (auto simp: handleNewChat_def)
  next
    case (SetInput v)
    with assms Pair show ?thesis by auto
  next
    case (FileChange fl oid)
    with assms Pair show ?thesis by (auto simp: handleFileChange_def split: option.splits)
  next
    case RemoveImage
    with assms Pair show ?thesis by (auto simp: handleRemoveImage_def)
  next
    case MessagesEffect
    with assms Pair show ?thesis by (auto simp: reinitialize_def)
  qed
qed

lemma reachable_guarded:
  "reachable st \<Longrightarrow> snd st = [] \<or> (length (snd st) = 1 \<and> isLoading (fst st))"
proof (induction rule: reachable.induct)
  case (mounted ms)
  show ?case by simp
next
  case (after st ev)
  from after.IH show ?case by (rule step_guarded)
qed

lemma in_flight_loading: "reachable st \<Longrightarrow> in_flight st \<Longrightarrow> isLoading (fst st)"
  using reachable_guarded [of st] by (auto simp: in_flight_def)

lemma loading_submit: "isLoading (fst st) \<Longrightarrow> step (Submit opened) st = st"
  by (cases st) (simp add: rejects_def)

text \<open>
  Within one mounted component the guard of \<open>handleSubmit\<close> holds: \<open>isLoading\<close> is set
  before the request opens and reset only in \<^verbatim>\<open>finally\<close>, so while a run of that
  component is suspended a submit changes nothing. In such a component the rewriting
  updater also always finds a message to rewrite.
\<close>

lemma guard_within_one_mount:
  "reachable st \<Longrightarrow> in_flight st \<Longrightarrow>
     isLoading (fst st) \<and> rejects (fst st)
     \<and> step (Submit opened) st = st
     \<and> handleSubmit response (fst st) = fst st"
  using in_flight_loading [of st] loading_submit [of st opened]
  by (auto simp: rejects_def handleSubmit_def)

lemma on_chunk_nonempty:
  "on_chunk c (f, ms) = Inr (f', ms') \<Longrightarrow> firstChunk f \<or> ms \<noteq> [] \<Longrightarrow> firstChunk f' \<or> ms' \<noteq> []"
  by (cases c) (auto simp: on_chunk_def replace_last_text_def split: if_splits sum.splits)

lemma step_has_target:
  assumes g: "snd st = [] \<or> (length (snd st) = 1 \<and> isLoading (fst st))"
    and t: "list_all (\<lambda>f. firstChunk f \<or> messages (fst st) \<noteq> []) (snd st)"
  shows "list_all (\<lambda>f. firstChunk f \<or> messages (fst (step ev st)) \<noteq> []) (snd (step ev st))"
proof (cases st)
  case (Pair s fs)
  show ?thesis
  proof (cases ev)
    case (Submit opened)
    show ?thesis
    proof (cases "rejects s")
      case True
      with t Pair Submit show ?thesis by simp
    next
      case False
      then have "\<not> isLoading s" by (simp add: rejects_def)
      with g Pair have "fs = []" by auto
      with Pair Submit False show ?thesis
        by (auto simp: open_request_def submit_begin_def finally_block_def catch_block_def
            initial_frame_def split: option.splits sum.splits)
    qed
  next
    case (Chunk i c)
    show ?thesis
    proof (cases "i < length fs")
      case False
      with t Pair Chunk show ?thesis by simp
    next
      case True
      with g Pair have one: "length fs = 1" "i = 0" by auto
      then obtain f where fs: "fs = [f]" by (cases fs) auto
      show ?thesis
      proof (cases "on_chunk c (f, messages s)")
        case (Inl e)
        with Pair Chunk fs one show ?thesis by (simp add: remove_nth_def)
      next
        case (Inr r)
        obtain f' ms' where r: "r = (f', ms')" by (cases r)
        from t Pair fs have "firstChunk f \<or> messages s \<noteq> []" by simp
        with Inr r have "firstChunk f' \<or> ms' \<noteq> []" by (auto dest: on_chunk_nonempty)
        with Pair Chunk fs one Inr r show ?thesis by simp
      qed
    qed
  next
    case (StreamEnd i)
    with g t Pair show ?thesis by (auto simp: remove_nth_single)
  next
    case (StreamError i e)
    with g t Pair show ?thesis by (auto simp: remove_nth_single)
  next
    case NewChat
    with t Pair show ?thesis by (auto simp: handleNewChat_def list_all_iff)
  next
    case (SetInput v)
    with t Pair show ?thesis by auto
  next
    case (FileChange fl oid)
    with t Pair show ?thesis by (auto simp: handleFileChange_def split: option.splits)
  next
    case RemoveImage
    with t Pair show ?thesis by (auto simp: handleRemoveImage_def)
  next
    case MessagesEffect
    with t Pair show ?thesis by (auto simp: reinitialize_def)
  qed
qed

lemma rewrite_has_target:
  "reachable st \<Longrightarrow> list_all (\<lambda>f. firstChunk f \<or> messages (fst st) \<noteq> []) (snd st)"
proof (induction rule: reachable.induct)
  case (mounted ms)
  show ?case by simp
next
  case (after st ev)
  from reachable_guarded [OF after.hyps] after.IH show ?case by (rule step_has_target)
qed

lemma chunk_never_throws:
  assumes "reachable (s, fs)" "i < length fs"
  shows "\<exists>r. on_chunk c (fs ! i, messages s) = Inr r"
proof -
  from rewrite_has_target [OF assms(1)] assms(2)
  have "firstChunk (fs ! i) \<or> messages s \<noteq> []" by (auto simp: list_all_length)
  then show ?thesis
    by (cases c) (auto simp: on_chunk_def replace_last_text_def)
qed

subsection \<open>A second submit while a stream is in flight\<close>

lemma remounted_eq:
  "remounted =
     \<lparr>component = \<lparr>messages = [initialWelcomeMessage], input = ''again'', isLoading = False,
         image = None, imagePreview = None,
         geminiChat = Some (createChat (history [initialWelcomeMessage])),
         logged = [], sent = [[TextPart ''Hi'']]\<rparr>,
      signed_in = True, runs = [], orphans = [initial_frame], crashed = False\<rparr>"
  by (simp add: remounted_def started_def mount_def reinitialize_def rejects_def trim_def
      whitespace_def open_request_def messageParts_def submit_begin_def)

text \<open>
  C9. There is a state of the App with a response stream in flight in which a submit is
  not rejected: the user submits, signs out while the request is open, signs in again
  and types. The new component starts with \<open>isLoading\<close> false, the run of the old one is
  still suspended in its loop, and the submit appends a new user message and gives the
  client another request. The old stream is still live: its next chunk appends its
  message after the new user message.
\<close>

theorem second_submit_unguarded:
  "app_reachable remounted
   \<and> streams_in_flight remounted
   \<and> signed_in remounted \<and> \<not> crashed remounted
   \<and> messages (component (app_step (Component (Submit None)) remounted))
       = messages (component remounted) @ [\<lparr>role = User, text = Some ''again'', imageUrl = None\<rparr>]
   \<and> sent (component (app_step (Component (Submit None)) remounted))
       = sent (component remounted) @ [[TextPart ''again'']]
   \<and> runs (app_step (Component (Submit None)) remounted) = [initial_frame]
   \<and> orphans (app_step (Component (Submit None)) remounted) = [initial_frame]
   \<and> messages (component (app_step (OrphanChunk 0 (Some ''Hel''))
         (app_step (Component (Submit None)) remounted)))
       = messages (component remounted)
           @ [\<lparr>role = User, text = Some ''again'', imageUrl = None\<rparr>, model_message ''Hel'']
   \<and> (\<exists>a. app_reachable a \<and> streams_in_flight a
          \<and> app_step (Component (Submit None)) a \<noteq> a)"
proof -
  have o: "messages (component (app_step (OrphanChunk 0 (Some ''Hel''))
         (app_step (Component (Submit None)) remounted)))
       = messages (component remounted)
           @ [\<lparr>role = User, text = Some ''again'', imageUrl = None\<rparr>, model_message ''Hel'']"
    by (simp add: remounted_eq rejects_def trim_def whitespace_def open_request_def
        messageParts_def submit_begin_def on_chunk_def initial_frame_def)
  have r: "app_reachable remounted"
    unfolding remounted_def by (intro app_reachable.intros)
  have f: "streams_in_flight remounted" "signed_in remounted" "\<not> crashed remounted"
    by (simp_all add: remounted_eq streams_in_flight_def)
  have m: "messages (component (app_step (Component (Submit None)) remounted))
       = messages (component remounted) @ [\<lparr>role = User, text = Some ''again'', imageUrl = None\<rparr>]"
    by (simp add: remounted_eq rejects_def trim_def whitespace_def open_request_def
        messageParts_def submit_begin_def)
  have s: "sent (component (app_step (Component (Submit None)) remounted))
       = sent (component remounted) @ [[TextPart ''again'']]"
    by (simp add: remounted_eq rejects_def trim_def whitespace_def open_request_def
        messageParts_def submit_begin_def)
  have q: "runs (app_step (Component (Submit None)) remounted) = [initial_frame]"
      "orphans (app_step (Component (Submit None)) remounted) = [initial_frame]"
    by (simp_all add: remounted_eq rejects_def trim_def whitespace_def open_request_def
        messageParts_def submit_begin_def)
  have "app_step (Component (Submit None)) remounted \<noteq> remounted"
    using q(1) by (auto simp: remounted_eq)
  with r f have "\<exists>a. app_reachable a \<and> streams_in_flight a \<and> app_step (Component (Submit None)) a \<noteq> a"
    by blast
  with r f m s q o show ?thesis by simp
qed

subsection \<open>The codec reads back what it writes\<close>

lemma unquote_escaped: "unquote (concat (map escaped s) @ CHR 0x22 # rest) = Some (s, rest)"
  by (induction s) (simp_all add: escaped_def)

lemma read_string_quote: "read_string (quote s @ rest) = Some (s, rest)"
  by (simp add: read_string_def quote_def unquote_escaped)

lemma expect_prefix: "expect p (p @ rest) = Some rest"
  by (simp add: expect_def)

lemma read_field_present:
  "read_field name ('','' @ quote name @ '':'' @ quote v @ rest) = Some (Some v, rest)"
  using expect_prefix [of "'','' @ quote name @ '':''" "quote v @ rest"]
  by (simp add: read_field_def read_string_quote)

lemma read_field_absent:
  "\<not> prefix ('','' @ quote name @ '':'') rest \<Longrightarrow> read_field name rest = Some (None, rest)"
  by (simp add: read_field_def expect_def)

lemma read_message_encoded: "read_message (encode_message m @ rest) = Some (m, rest)"
proof -
  obtain r t u where m: "m = \<lparr>role = r, text = t, imageUrl = u\<rparr>" by (cases m) simp
  let ?role = "case r of User \<Rightarrow> ''user'' | Model \<Rightarrow> ''model''"
  let ?t = "case t of None \<Rightarrow> [] | Some v \<Rightarrow> '','' @ quote ''text'' @ '':'' @ quote v"
  let ?u = "case u of None \<Rightarrow> [] | Some v \<Rightarrow> '','' @ quote ''imageUrl'' @ '':'' @ quote v"
  have j: "encode_message m @ rest
      = (''{'' @ quote ''role'' @ '':'') @ quote ?role @ ?t @ ?u @ ''}'' @ rest"
    by (simp add: encode_message_def m)
  have role: "?role = ''user'' \<and> r = User \<or> ?role = ''model'' \<and> r = Model"
    by (cases r) simp_all
  have fu: "read_field ''imageUrl'' (?u @ ''}'' @ rest) = Some (u, ''}'' @ rest)"
  proof (cases u)
    case None
    then show ?thesis by (simp add: read_field_absent)
  next
    case (Some v)
    then show ?thesis
      using read_field_present [of "''imageUrl''" v "''}'' @ rest"] by simp
  qed
  have ft: "read_field ''text'' (?t @ ?u @ ''}'' @ rest) = Some (t, ?u @ ''}'' @ rest)"
  proof (cases t)
    case None
    have "\<not> prefix ('','' @ quote ''text'' @ '':'') (?u @ ''}'' @ rest)"
      by (cases u) (simp_all add: quote_def escaped_def)
    with None show ?thesis by (simp add: read_field_absent)
  next
    case (Some v)
    then show ?thesis
      using read_field_present [of "''text''" v "?u @ ''}'' @ rest"] by simp
  qed
  have e: "expect ''}'' (''}'' @ rest) = Some rest"
    by (rule expect_prefix)
  have rs: "read_string (quote ?role @ ?t @ ?u @ ''}'' @ rest) = Some (?role, ?t @ ?u @ ''}'' @ rest)"
    by (rule read_string_quote)
  show ?thesis
    unfolding j read_message_def expect_prefix
    using role ft fu e rs by (auto simp: m)
qed

lemma encode_items_Cons:
  "ms \<noteq> [] \<Longrightarrow> encode_items (m # ms) = encode_message m @ '','' @ encode_items ms"
  by (cases ms) simp_all

lemma read_items_encoded:
  "ms \<noteq> [] \<Longrightarrow> length ms \<le> n \<Longrightarrow> read_items n (encode_items ms @ '']'') = Some ms"
proof (induction ms arbitrary: n)
  case Nil
  then show ?case by simp
next
  case (Cons m ms)
  then obtain k where n: "n = Suc k" by (cases n) simp_all
  show ?case
  proof (cases "ms = []")
    case True
    then show ?thesis by (simp add: n read_message_encoded)
  next
    case False
    have r: "read_message (encode_message m @ '','' @ encode_items ms @ '']'')
        = Some (m, '','' @ encode_items ms @ '']'')"
      by (rule read_message_encoded)
    have i: "read_items k (encode_items ms @ '']'') = Some ms"
      using Cons.IH [of k] False Cons.prems n by simp
    show ?thesis
      using False r i expect_prefix [of "'',''" "encode_items ms @ '']''"]
      by (simp add: n encode_items_Cons)
  qed
qed

lemma encode_message_brace: "\<exists>r. encode_message m = CHR ''{'' # r"
  by (simp add: encode_message_def)

lemma encode_items_length: "length ms \<le> length (encode_items ms)"
proof (induction ms rule: encode_items.induct)
  case (2 m)
  then show ?case using encode_message_brace [of m] by auto
next
  case (3 m v va)
  then show ?case using encode_message_brace [of m] by auto
qed simp

lemma codec_roundtrip: "decode_messages (encode_messages ms) = Inr ms"
proof (cases "ms = []")
  case True
  then show ?thesis by (simp add: decode_messages_def encode_messages_def)
next
  case False
  then obtain m ms' where ms: "ms = m # ms'" by (cases ms) simp_all
  obtain r where "encode_message m = CHR ''{'' # r" using encode_message_brace by blast
  then have "\<exists>r. encode_items ms = CHR ''{'' # r"
    unfolding ms by (cases ms') simp_all
  then have ne: "encode_messages ms \<noteq> ''[]''"
    by (auto simp: encode_messages_def)
  have "read_items (length (encode_items ms @ '']'')) (encode_items ms @ '']'') = Some ms"
    using False encode_items_length [of ms] by (intro read_items_encoded) simp_all
  then show ?thesis
    using ne expect_prefix [of "''[''" "encode_items ms @ '']''"]
    by (simp add: decode_messages_def encode_messages_def)
qed

subsection \<open>Persistence\<close>

lemma save_accepted:
  "setItem (history_key uid) (S (map storable ms)) (localStorage b) = Inr st \<Longrightarrow>
   saveChatHistory S uid ms b = Inr (b\<lparr>localStorage := st\<rparr>)"
  by (simp add: saveChatHistory_def try_catch_def)

lemma save_refused:
  "setItem (history_key uid) (S (map storable ms)) (localStorage b) = Inl e \<Longrightarrow>
   saveChatHistory S uid ms b = Inr (b\<lparr>console := console b @ [(''Failed to save chat history:'', e)]\<rparr>)"
  by (simp add: saveChatHistory_def try_catch_def)

lemma setItem_getItem: "setItem k v st = Inr st' \<Longrightarrow> getItem k st' = Some v"
  by (auto simp: setItem_def getItem_def Let_def update_conv' split: if_splits)

lemma load_cases:
  "loadChatHistory P uid b =
     (case getItem (history_key uid) (localStorage b) of
        None \<Rightarrow> Inr ([], b)
      | Some v \<Rightarrow>
          (if v = [] then Inr ([], b)
           else (case P v of
                   Inl e \<Rightarrow> Inr ([], b\<lparr>console := console b @ [(''Failed to load chat history:'', e)]\<rparr>)
                 | Inr ms \<Rightarrow> Inr (ms, b))))"
  by (simp add: loadChatHistory_def try_catch_def split: option.splits sum.splits)

lemma roundtrip:
  assumes "P (S (map storable ms)) = Inr (map storable ms)"
    and "S (map storable ms) \<noteq> []"
    and "setItem (history_key uid) (S (map storable ms)) (localStorage b) = Inr st"
  shows "save_then_load S P uid ms b = Inr (map storable ms, b\<lparr>localStorage := st\<rparr>)"
  using assms setItem_getItem [OF assms(3)]
  by (simp add: save_then_load_def save_accepted load_cases)

lemmas codec_defs = encode_messages_def encode_message_def quote_def escaped_def
     decode_messages_def expect_def read_message_def read_string_def read_field_def

text \<open>
  C6, as stated, fails: when the store has no room for the new text the write is refused,
  the save is dropped, and loading gives the empty list, or the older list the store
  still holds, and not the list that was saved.
\<close>

theorem refused_write_drops_list:
  "decode_messages (encode_messages (map storable [photo_message])) = Inr (map storable [photo_message])
   \<and> map storable [photo_message] = [\<lparr>role = User, text = Some ''look'', imageUrl = Some []\<rparr>]
   \<and> save_then_load encode_messages decode_messages ''u1'' [photo_message] (fresh_browser 10)
       = Inr ([], (fresh_browser 10)\<lparr>console := [(''Failed to save chat history:'', QuotaExceededError)]\<rparr>)
   \<and> save_then_load encode_messages decode_messages ''u1'' [photo_message] older_browser
       = Inr ([model_message ''old''],
              older_browser\<lparr>console := [(''Failed to save chat history:'', QuotaExceededError)]\<rparr>)"
  by (simp add: save_then_load_def saveChatHistory_def loadChatHistory_def try_catch_def
      setItem_def getItem_def fresh_browser_def older_browser_def stored_size_def history_key_def
      photo_message_def model_message_def storable_def is_blob_def codec_defs)

lemma save_then_load_refused:
  "setItem (history_key uid) (S (map storable ms)) (localStorage b) = Inl e \<Longrightarrow>
   save_then_load S P uid ms b
     = loadChatHistory P uid (b\<lparr>console := console b @ [(''Failed to save chat history:'', e)]\<rparr>)"
  by (simp add: save_then_load_def save_refused)

text \<open>
  C6, amended. When the store accepts the write, and the platform's JSON functions read
  back what they wrote for this list, saving a list and loading it under the same
  identifier gives the list with every image URL of the \<^verbatim>\<open>blob:\<close> scheme replaced by
  the empty string: as many messages, in the same order, each with its role, its text,
  and its image URL when that is not transient. When the store refuses the write, the
  store is left as it was, the error is printed, and loading gives what it gave before.
\<close>

theorem save_load_roundtrip:
  "(P (S (map storable ms)) = Inr (map storable ms)
    \<and> S (map storable ms) \<noteq> []
    \<and> setItem (history_key uid) (S (map storable ms)) (localStorage b) = Inr st
    \<longrightarrow> save_then_load S P uid ms b = Inr (map storable ms, b\<lparr>localStorage := st\<rparr>))
   \<and> (setItem (history_key uid) (S (map storable ms)) (localStorage b) = Inl e
    \<longrightarrow> save_then_load S P uid ms b
          = loadChatHistory P uid (b\<lparr>console := console b @ [(''Failed to save chat history:'', e)]\<rparr>)
        \<and> localStorage (b\<lparr>console := console b @ [(''Failed to save chat history:'', e)]\<rparr>)
          = localStorage b)
   \<and> length (map storable ms) = length ms
   \<and> (\<forall>i<length ms.
          role (map storable ms ! i) = role (ms ! i)
          \<and> text (map storable ms ! i) = text (ms ! i)
          \<and> imageUrl (map storable ms ! i)
              = (if is_blob (imageUrl (ms ! i)) then Some [] else imageUrl (ms ! i)))"
  using roundtrip [of P S ms uid b st] save_then_load_refused [of uid S ms b e P]
  by (auto simp: storable_def)

theorem save_load_roundtrip_witness:
  "decode_messages (encode_messages (map storable [photo_message, model_message ''A cat.'']))
     = Inr (map storable [photo_message, model_message ''A cat.''])
   \<and> encode_messages (map storable [photo_message, model_message ''A cat.'']) \<noteq> []
   \<and> setItem (history_key ''u1'')
        (encode_messages (map storable [photo_message, model_message ''A cat.'']))
        (localStorage (fresh_browser 5000))
       = Inr \<lparr>entries = [(history_key ''u1'',
                 encode_messages (map storable [photo_message, model_message ''A cat.'']))], quota = 5000\<rparr>
   \<and> save_then_load encode_messages decode_messages ''u1''
        [photo_message, model_message ''A cat.''] (fresh_browser 5000)
       = Inr ([\<lparr>role = User, text = Some ''look'', imageUrl = Some []\<rparr>, model_message ''A cat.''],
              \<lparr>localStorage = \<lparr>entries = [(history_key ''u1'',
                 encode_messages (map storable [photo_message, model_message ''A cat.'']))], quota = 5000\<rparr>,
               console = []\<rparr>)
   \<and> setItem (history_key ''u1'') (encode_messages (map storable [photo_message]))
        (localStorage older_browser) = Inl QuotaExceededError
   \<and> save_then_load encode_messages decode_messages ''u1'' [photo_message] older_browser
       = loadChatHistory decode_messages ''u1''
           (older_browser\<lparr>console := [(''Failed to save chat history:'', QuotaExceededError)]\<rparr>)"
proof -
  let ?ms = "[photo_message, model_message ''A cat.'']"
  let ?st = "\<lparr>entries = [(history_key ''u1'', encode_messages (map storable ?ms))], quota = 5000\<rparr>"
  have p: "decode_messages (encode_messages (map storable ?ms)) = Inr (map storable ?ms)"
    by (rule codec_roundtrip)
  have n: "encode_messages (map storable ?ms) \<noteq> []"
    by (simp add: encode_messages_def)
  have s: "setItem (history_key ''u1'') (encode_messages (map storable ?ms))
        (localStorage (fresh_browser 5000)) = Inr ?st"
    by (simp add: setItem_def fresh_browser_def stored_size_def history_key_def
        photo_message_def model_message_def storable_def is_blob_def codec_defs)
  have m: "map storable ?ms = [\<lparr>role = User, text = Some ''look'', imageUrl = Some []\<rparr>, model_message ''A cat.'']"
    by (simp add: photo_message_def model_message_def storable_def is_blob_def)
  have q: "setItem (history_key ''u1'') (encode_messages (map storable [photo_message]))
        (localStorage older_browser) = Inl QuotaExceededError"
    by (simp add: setItem_def older_browser_def stored_size_def history_key_def
        photo_message_def model_message_def storable_def is_blob_def codec_defs)
  have c: "console older_browser = []" by (simp add: older_browser_def)
  show ?thesis
    using save_load_roundtrip [of decode_messages encode_messages ?ms "''u1''" "fresh_browser 5000" ?st
        QuotaExceededError]
      save_load_roundtrip [of decode_messages encode_messages "[photo_message]" "''u1''" older_browser ?st
        QuotaExceededError]
      p n s m q c
    by (simp add: fresh_browser_def)
qed

text \<open>
  C7. Loading gives the empty list when the identifier has no entry, gives what
  \<^verbatim>\<open>JSON.parse\<close> makes of the stored text when it parses, and gives the empty list
  (after printing the error) when it does not parse; an entry that is the empty string
  counts as no entry. Loading always returns a value. Saving prints the error and returns
  when the store refuses the write, and always returns.
\<close>

theorem load_save_contained:
  "(getItem (history_key uid) (localStorage b) = None \<longrightarrow> loadChatHistory P uid b = Inr ([], b))
   \<and> (getItem (history_key uid) (localStorage b) = Some v \<and> v \<noteq> [] \<and> P v = Inr ms
        \<longrightarrow> loadChatHistory P uid b = Inr (ms, b))
   \<and> (getItem (history_key uid) (localStorage b) = Some v \<and> v \<noteq> [] \<and> P v = Inl e
        \<longrightarrow> loadChatHistory P uid b
              = Inr ([], b\<lparr>console := console b @ [(''Failed to load chat history:'', e)]\<rparr>))
   \<and> (getItem (history_key uid) (localStorage b) = Some [] \<longrightarrow> loadChatHistory P uid b = Inr ([], b))
   \<and> (\<exists>r. loadChatHistory P uid b = Inr r)
   \<and> (setItem (history_key uid) (S (map storable ms')) (localStorage b) = Inl e
        \<longrightarrow> saveChatHistory S uid ms' b
              = Inr (b\<lparr>console := console b @ [(''Failed to save chat history:'', e)]\<rparr>))
   \<and> (\<exists>b'. saveChatHistory S uid ms' b = Inr b')"
proof -
  have l: "\<exists>r. loadChatHistory P uid b = Inr r"
    by (simp add: load_cases split: option.splits sum.splits)
  have s: "\<exists>b'. saveChatHistory S uid ms' b = Inr b'"
    by (cases "setItem (history_key uid) (S (map storable ms')) (localStorage b)")
       (simp_all add: save_refused save_accepted)
  show ?thesis
    using l s by (simp add: load_cases save_refused)
qed

theorem load_save_contained_witness:
  "getItem (history_key ''u2'') (localStorage spoiled_browser) = None
   \<and> loadChatHistory decode_messages ''u2'' spoiled_browser = Inr ([], spoiled_browser)
   \<and> getItem (history_key ''u1'') (localStorage spoiled_browser) = Some ''{oops''
   \<and> decode_messages ''{oops'' = Inl SyntaxError
   \<and> loadChatHistory decode_messages ''u1'' spoiled_browser
       = Inr ([], spoiled_browser\<lparr>console := [(''Failed to load chat history:'', SyntaxError)]\<rparr>)
   \<and> setItem (history_key ''u1'') (encode_messages (map storable [photo_message])) (localStorage spoiled_browser)
       = Inl QuotaExceededError
   \<and> saveChatHistory encode_messages ''u1'' [photo_message] spoiled_browser
       = Inr (spoiled_browser\<lparr>console := [(''Failed to save chat history:'', QuotaExceededError)]\<rparr>)"
proof -
  have g2: "getItem (history_key ''u2'') (localStorage spoiled_browser) = None"
    by (simp add: getItem_def spoiled_browser_def history_key_def)
  have g1: "getItem (history_key ''u1'') (localStorage spoiled_browser) = Some ''{oops''"
    by (simp add: getItem_def spoiled_browser_def history_key_def)
  have p: "decode_messages ''{oops'' = Inl SyntaxError"
    by (simp add: codec_defs)
  have q: "setItem (history_key ''u1'') (encode_messages (map storable [photo_message]))
      (localStorage spoiled_browser) = Inl QuotaExceededError"
    by (simp add: setItem_def spoiled_browser_def stored_size_def history_key_def
        photo_message_def storable_def is_blob_def codec_defs)
  have c: "console spoiled_browser = []"
    by (simp add: spoiled_browser_def)
  show ?thesis
    using load_save_contained [of "''u2''" spoiled_browser decode_messages "''{oops''" "[]" SyntaxError
          encode_messages "[photo_message]"]
      load_save_contained [of "''u1''" spoiled_browser decode_messages "''{oops''" "[]" SyntaxError
          encode_messages "[photo_message]"]
      load_save_contained [of "''u1''" spoiled_browser decode_messages "''{oops''" "[]" QuotaExceededError
          encode_messages "[photo_message]"]
      g1 g2 p q c
    by simp
qed

subsection \<open>The invariant of the messages\<close>















end
